theory Spec2Isabelle
  imports Complex_Main
begin

section \<open>The JSI boundary\<close>

text \<open>
  The header \<^verbatim>\<open>RNFHybridObject.h\<close> builds on \<^verbatim>\<open>jsi/jsi.h\<close>: a \<^verbatim>\<open>jsi::Runtime\<close>
  is known to a HybridObject only through its address, a \<^verbatim>\<open>jsi::Value\<close> is one
  of the JavaScript kinds, and a C++ exception is a value that replaces the
  result of the call that threw it.
\<close>

type_synonym runtime = nat

type_synonym thread = nat

datatype jsi_value =
    Undefined
  | Null
  | JBool bool
  | JNumber real
  | JString string
  | JObject nat

datatype exn =
    RuntimeError string
  | TypeConversionError string string

text \<open>
  \<^verbatim>\<open>jsi::HostFunctionType\<close> is
  \<^verbatim>\<open>std::function<Value(Runtime&, const Value& thisVal, const Value* args, size_t count)>\<close>.
  The argument pointer is modelled by what lies behind it: \<open>args i\<close> is the content
  of slot \<open>i\<close>, whether or not \<open>i < count\<close>; C++ does not check the index. A read
  at or beyond \<open>count\<close> is outside what C++ defines: the model gives it the content
  of the memory behind the caller's array, and has no way to say that such a
  read may also end the process. The
  last parameter \<open>'s\<close> is the state of the native instance the closure has
  captured by pointer; the call returns the value or the exception, and that
  state as the call left it.
\<close>

type_synonym 's HostFunctionType =
  "runtime \<Rightarrow> jsi_value \<Rightarrow> (nat \<Rightarrow> jsi_value) \<Rightarrow> nat \<Rightarrow> 's \<Rightarrow> (exn + jsi_value) \<times> 's"

text \<open>\<^verbatim>\<open>struct HybridFunction { jsi::HostFunctionType function; size_t parameterCount; }\<close>\<close>

record 's HybridFunction =
  func :: "'s HostFunctionType"
  parameterCount :: nat

text \<open>
  Modelled from the spec: \<^verbatim>\<open>RNFJSIConverter.h\<close> is included by the header but is not
  among the sources. Section 4.1 of the specification gives, for each supported
  native type, \<open>fromScript\<close>, which fails with a type conversion error when the
  scripting value has the wrong kind, and \<open>toScript\<close>. A C++ type \<open>T\<close> is
  represented by its \<^verbatim>\<open>JSIConverter<T>\<close>; \<open>'n\<close> is the universe of native values.
\<close>

record 'n JSIConverter =
  fromJSI :: "runtime \<Rightarrow> jsi_value \<Rightarrow> exn + 'n"
  toJSI :: "runtime \<Rightarrow> 'n \<Rightarrow> jsi_value"

text \<open>
  A member function pointer \<^verbatim>\<open>ReturnType (Derived::*method)(Args...)\<close>. The two
  \<^verbatim>\<open>if constexpr\<close> tests of the header look at \<^verbatim>\<open>ReturnType\<close> only:
  \<^verbatim>\<open>jsi::Value\<close> (then the signature must be that of a host function), \<^verbatim>\<open>void\<close>,
  or a native type. \<open>Args...\<close> is the list of the parameters' converters.
\<close>

datatype ('n, 's) typed_method =
    VoidMethod "'n JSIConverter list" "'n list \<Rightarrow> 's \<Rightarrow> (exn + unit) \<times> 's"
  | ValueMethod "'n JSIConverter" "'n JSIConverter list" "'n list \<Rightarrow> 's \<Rightarrow> (exn + 'n) \<times> 's"

text \<open>
  What \<^verbatim>\<open>createHybridMethod\<close> is instantiated with. For a method whose arguments
  are converted, the instantiation of \<^verbatim>\<open>callMethod\<close> holds one call expression
  whose arguments are the conversions; C++ does not say in which order the
  arguments of a call are evaluated, so the order the compiler chose for that
  instantiation comes with the method, as a rank: among the slots \<open>0, ..., n - 1\<close>
  a slot of lower rank is converted earlier, and slots of equal rank in index
  order. Every order of evaluation is the order of some rank.
\<close>

datatype ('n, 's) native_method =
    JsiMethod "'s HostFunctionType"
  | TypedMethod "nat \<Rightarrow> nat" "('n, 's) typed_method"

fun Args :: "('n, 's) typed_method \<Rightarrow> 'n JSIConverter list" where
  "Args (VoidMethod cs body) = cs"
| "Args (ValueMethod ret cs body) = cs"

text \<open>
  \<^verbatim>\<open>sizeof...(Args)\<close>. A method returning \<^verbatim>\<open>jsi::Value\<close> is called as
  \<^verbatim>\<open>method(runtime, thisVal, args, count)\<close>, so it declares those four parameters.
\<close>

fun sizeofArgs :: "('n, 's) native_method \<Rightarrow> nat" where
  "sizeofArgs (JsiMethod h) = 4"
| "sizeofArgs (TypedMethod rank m) = length (Args m)"

section \<open>callMethod and createHybridMethod\<close>

text \<open>
  The pack expansion \<^verbatim>\<open>JSIConverter<std::decay_t<Args>>::fromJSI(runtime, args[Is])...\<close>
  over \<^verbatim>\<open>std::index_sequence<0, ..., n-1>\<close>: the k-th converter is applied to slot
  \<open>k\<close>. \<open>evalArgs\<close> evaluates the conversions of the given slots one after the
  other and keeps each value with its slot; the first conversion that throws
  ends the call, before the remaining conversions and before the method is
  entered. \<open>convertArgs\<close> does so in the order of the rank and, when none throws,
  hands the values over in the order of the parameters.
\<close>

fun evalArgs ::
  "'n JSIConverter list \<Rightarrow> runtime \<Rightarrow> (nat \<Rightarrow> jsi_value) \<Rightarrow> nat list \<Rightarrow> exn + (nat \<times> 'n) list" where
  "evalArgs cs rt args [] = Inr []"
| "evalArgs cs rt args (k # ks) =
     (case fromJSI (cs ! k) rt (args k) of
        Inl e \<Rightarrow> Inl e
      | Inr v \<Rightarrow>
          (case evalArgs cs rt args ks of
             Inl e \<Rightarrow> Inl e
           | Inr kvs \<Rightarrow> Inr ((k, v) # kvs)))"

definition convertArgs ::
  "(nat \<Rightarrow> nat) \<Rightarrow> 'n JSIConverter list \<Rightarrow> runtime \<Rightarrow> (nat \<Rightarrow> jsi_value) \<Rightarrow> exn + 'n list" where
  "convertArgs rank cs rt args =
     (case evalArgs cs rt args (sort_key rank [0..<length cs]) of
        Inl e \<Rightarrow> Inl e
      | Inr kvs \<Rightarrow> Inr (map snd (sort_key fst kvs)))"

fun callMethod ::
  "(nat \<Rightarrow> nat) \<Rightarrow> ('n, 's) typed_method \<Rightarrow> runtime \<Rightarrow> (nat \<Rightarrow> jsi_value) \<Rightarrow> 's \<Rightarrow> (exn + jsi_value) \<times> 's" where
  "callMethod rank (VoidMethod cs body) rt args obj =
     (case convertArgs rank cs rt args of
        Inl e \<Rightarrow> (Inl e, obj)
      | Inr vs \<Rightarrow>
          (case body vs obj of
             (Inl e, obj') \<Rightarrow> (Inl e, obj')
           | (Inr u, obj') \<Rightarrow> (Inr Undefined, obj')))"
| "callMethod rank (ValueMethod ret cs body) rt args obj =
     (case convertArgs rank cs rt args of
        Inl e \<Rightarrow> (Inl e, obj)
      | Inr vs \<Rightarrow>
          (case body vs obj of
             (Inl e, obj') \<Rightarrow> (Inl e, obj')
           | (Inr result, obj') \<Rightarrow> (Inr (toJSI ret rt result), obj')))"

fun createHybridMethod :: "('n, 's) native_method \<Rightarrow> 's HostFunctionType" where
  "createHybridMethod (JsiMethod method) =
     (\<lambda>rt thisVal args count. method rt thisVal args count)"
| "createHybridMethod (TypedMethod rank method) =
     (\<lambda>rt thisVal args count. callMethod rank method rt args)"

section \<open>The HybridObject and its three namespaces\<close>

text \<open>
  The private fields of \<^verbatim>\<open>class HybridObject\<close>. A \<^verbatim>\<open>std::unordered_map\<close> is a map;
  \<^verbatim>\<open>m.count(k) > 0\<close> is \<open>m k \<noteq> None\<close> and \<^verbatim>\<open>m[k] = v\<close> is \<open>m(k \<mapsto> v)\<close>. The mutex is
  the thread that holds it, if any; a \<^verbatim>\<open>std::shared_ptr<jsi::Function>\<close> is the
  address of the function it points to.
\<close>

record 's HybridObject =
  name :: string
  instanceId :: int
  didLoadMethods :: bool
  mutex :: "thread option"
  methods :: "string \<rightharpoonup> 's HybridFunction"
  getters :: "string \<rightharpoonup> 's HostFunctionType"
  setters :: "string \<rightharpoonup> 's HostFunctionType"
  functionCache :: "runtime \<rightharpoonup> (string \<rightharpoonup> nat)"
  creationRuntime :: "runtime option"

text \<open>The default member initialisers of the header: what a new object holds.\<close>

definition newHybridObject :: "'s HybridObject" where
  "newHybridObject =
     \<lparr> name = ''HybridObject'', instanceId = 1, didLoadMethods = False, mutex = None,
       methods = Map.empty, getters = Map.empty, setters = Map.empty,
       functionCache = Map.empty, creationRuntime = None \<rparr>"

definition quoted :: "string \<Rightarrow> string" where
  "quoted s = [CHR 0x22] @ s @ [CHR 0x22]"

text \<open>
  The registration calls either throw a \<^verbatim>\<open>std::runtime_error\<close> or store the
  entry. The result pairs the outcome with the object as the call left it.
\<close>

definition registerHybridMethod ::
  "string \<Rightarrow> ('n, 's) native_method \<Rightarrow> bool \<Rightarrow> 's HybridObject \<Rightarrow> (exn + unit) \<times> 's HybridObject" where
  "registerHybridMethod nm method override obj =
     (if \<not> override \<and> (getters obj nm \<noteq> None \<or> setters obj nm \<noteq> None) then
        (Inl (RuntimeError (''Cannot add Hybrid Method '' @ quoted nm @
                '' - a property with that name already exists!'')), obj)
      else if \<not> override \<and> methods obj nm \<noteq> None then
        (Inl (RuntimeError (''Cannot add Hybrid Method '' @ quoted nm @
                '' - a method with that name already exists!'')), obj)
      else
        (Inr (), obj\<lparr> methods := (methods obj)(nm \<mapsto>
            \<lparr> func = createHybridMethod method, parameterCount = sizeofArgs method \<rparr>) \<rparr>))"

text \<open>
  The template of \<^verbatim>\<open>registerHybridGetter\<close> admits only a method without
  parameters, that of \<^verbatim>\<open>registerHybridSetter\<close> only a \<^verbatim>\<open>void\<close> method with one;
  the checks and the store do not look at the method.
\<close>

definition registerHybridGetter ::
  "string \<Rightarrow> ('n, 's) native_method \<Rightarrow> 's HybridObject \<Rightarrow> (exn + unit) \<times> 's HybridObject" where
  "registerHybridGetter nm method obj =
     (if getters obj nm \<noteq> None then
        (Inl (RuntimeError (''Cannot add Hybrid Property Getter '' @ quoted nm @
                '' - a getter with that name already exists!'')), obj)
      else if methods obj nm \<noteq> None then
        (Inl (RuntimeError (''Cannot add Hybrid Property Getter '' @ quoted nm @
                '' - a method with that name already exists!'')), obj)
      else
        (Inr (), obj\<lparr> getters := (getters obj)(nm \<mapsto> createHybridMethod method) \<rparr>))"

definition registerHybridSetter ::
  "string \<Rightarrow> ('n, 's) native_method \<Rightarrow> 's HybridObject \<Rightarrow> (exn + unit) \<times> 's HybridObject" where
  "registerHybridSetter nm method obj =
     (if setters obj nm \<noteq> None then
        (Inl (RuntimeError (''Cannot add Hybrid Property Setter '' @ quoted nm @
                '' - a setter with that name already exists!'')), obj)
      else if methods obj nm \<noteq> None then
        (Inl (RuntimeError (''Cannot add Hybrid Property Setter '' @ quoted nm @
                '' - a method with that name already exists!'')), obj)
      else
        (Inr (), obj\<lparr> setters := (setters obj)(nm \<mapsto> createHybridMethod method) \<rparr>))"

section \<open>Lazy declaration of the members\<close>









section \<open>The per-runtime callable cache\<close>








section \<open>FilamentView.cleanupResources\<close>

text \<open>
  The fields of the React component \<^verbatim>\<open>FilamentView\<close> that its lifecycle methods
  read and write. Native objects (listeners, the swap chain, the native view,
  the choreographer) are handles; a call on one of them is recorded, in order,
  in the list the method returns, and is taken to return normally. A field that
  is \<^verbatim>\<open>undefined\<close> is \<open>None\<close>.
\<close>

record FilamentContext =
  choreographer :: nat
  renderer :: nat
  engine :: nat

record FilamentView =
  context' :: "FilamentContext option"
  surfaceCreatedListener :: "nat option"
  surfaceDestroyedListener :: "nat option"
  renderCallbackListener :: "nat option"
  swapChain :: "nat option"
  view :: "nat option"
  isSurfaceAlive :: bool
  isComponentMounted :: bool
  viewId :: nat
  latestToken :: nat

datatype native_call =
    LoggerDebug string
  | ChoreographerStop nat
  | ListenerRemove nat
  | SwapChainRelease nat
  | ViewSetChoreographer nat "nat option"

datatype js_error = Error string

definition getContext :: "FilamentView \<Rightarrow> js_error + FilamentContext" where
  "getContext this =
     (case context' this of
        None \<Rightarrow> Inl (Error ''Filament component must be used within a FilamentProvider!'')
      | Some c \<Rightarrow> Inr c)"

text \<open>The optional chaining \<^verbatim>\<open>receiver?.call()\<close>: no call on \<^verbatim>\<open>undefined\<close>.\<close>

definition optionalCall :: "'a option \<Rightarrow> ('a \<Rightarrow> native_call) \<Rightarrow> native_call list" where
  "optionalCall receiver call = (case receiver of None \<Rightarrow> [] | Some r \<Rightarrow> [call r])"

definition cleanupResources :: "FilamentView \<Rightarrow> (js_error + unit) \<times> FilamentView \<times> native_call list" where
  "cleanupResources this =
     (case getContext this of
        Inl e \<Rightarrow> (Inl e, this, [LoggerDebug ''Cleaning up resources''])
      | Inr ctx \<Rightarrow>
          (Inr (),
           this\<lparr> isSurfaceAlive := False, swapChain := None \<rparr>,
           [LoggerDebug ''Cleaning up resources'', ChoreographerStop (choreographer ctx)]
             @ optionalCall (renderCallbackListener this) ListenerRemove
             @ optionalCall (swapChain this) SwapChainRelease
             @ optionalCall (view this) (\<lambda>v. ViewSetChoreographer v None)))"

fun isRelease :: "native_call \<Rightarrow> bool" where
  "isRelease (SwapChainRelease sc) = True"
| "isRelease c = False"

section \<open>Concrete objects\<close>

text \<open>
  A \<open>User\<close> in the manner of the header's own example: its state is its name;
  \<open>getName\<close> and \<open>setName\<close> are a property pair, \<open>getAge\<close> returns 23, and
  \<open>greet\<close> takes two strings, and \<open>rawCount\<close> has the signature of a host function
  and answers with the argument count it was given. \<open>loadUser\<close> is a
  \<^verbatim>\<open>loadHybridMethods\<close> that registers \<open>getAge\<close>, as in the header's comment.
  The number converter reports the wrong kind as \<open>number\<close>, the string converter
  as \<open>string\<close>.
\<close>

datatype native = NDouble real | NString string

definition stringConverter :: "native JSIConverter" where
  "stringConverter =
     \<lparr> fromJSI = (\<lambda>rt v. case v of JString s \<Rightarrow> Inr (NString s)
                              | _ \<Rightarrow> Inl (TypeConversionError ''string'' ''other'')),
       toJSI = (\<lambda>rt n. case n of NString s \<Rightarrow> JString s | NDouble d \<Rightarrow> JNumber d) \<rparr>"

definition doubleConverter :: "native JSIConverter" where
  "doubleConverter =
     \<lparr> fromJSI = (\<lambda>rt v. case v of JNumber d \<Rightarrow> Inr (NDouble d)
                              | _ \<Rightarrow> Inl (TypeConversionError ''number'' ''other'')),
       toJSI = (\<lambda>rt n. case n of NDouble d \<Rightarrow> JNumber d | NString s \<Rightarrow> JString s) \<rparr>"

text \<open>Two orders of evaluation: by index, and (for up to 16 parameters) against it.\<close>

definition leftToRight :: "nat \<Rightarrow> nat" where
  "leftToRight k = k"

definition rightToLeft :: "nat \<Rightarrow> nat" where
  "rightToLeft k = 16 - k"

definition getNameBody :: "native list \<Rightarrow> string \<Rightarrow> (exn + native) \<times> string" where
  "getNameBody vs u = (Inr (NString u), u)"

definition getName :: "(native, string) native_method" where
  "getName = TypedMethod leftToRight (ValueMethod stringConverter [] getNameBody)"

definition setNameBody :: "native list \<Rightarrow> string \<Rightarrow> (exn + unit) \<times> string" where
  "setNameBody vs u = (case vs of [NString s] \<Rightarrow> (Inr (), s) | _ \<Rightarrow> (Inr (), u))"

definition setName :: "(native, string) native_method" where
  "setName = TypedMethod leftToRight (VoidMethod [stringConverter] setNameBody)"

definition getAgeBody :: "native list \<Rightarrow> string \<Rightarrow> (exn + native) \<times> string" where
  "getAgeBody vs u = (Inr (NDouble 23), u)"

definition getAge :: "(native, string) native_method" where
  "getAge = TypedMethod leftToRight (ValueMethod doubleConverter [] getAgeBody)"

definition greetBody :: "native list \<Rightarrow> string \<Rightarrow> (exn + native) \<times> string" where
  "greetBody vs u =
     (case vs of [NString a, NString b] \<Rightarrow> (Inr (NString (a @ b @ u)), u)
               | _ \<Rightarrow> (Inr (NString u), u))"

definition greet :: "(native, string) native_method" where
  "greet = TypedMethod rightToLeft (ValueMethod stringConverter [stringConverter, stringConverter] greetBody)"

definition rawCountBody :: "string HostFunctionType" where
  "rawCountBody rt thisVal args count u = (Inr (JNumber (of_nat count)), u)"

definition rawCount :: "(native, string) native_method" where
  "rawCount = JsiMethod rawCountBody"

definition noArgs :: "nat \<Rightarrow> jsi_value" where
  "noArgs = (\<lambda>i. Undefined)"

definition argsOf :: "jsi_value list \<Rightarrow> nat \<Rightarrow> jsi_value" where
  "argsOf vs = (\<lambda>i. if i < length vs then vs ! i else Undefined)"



text \<open>\<open>describe\<close>, of a string and a number, for which the two orders differ.\<close>

definition describeBody :: "native list \<Rightarrow> string \<Rightarrow> (exn + native) \<times> string" where
  "describeBody vs u = (Inr (NString u), u)"

definition describe :: "(nat \<Rightarrow> nat) \<Rightarrow> (native, string) native_method" where
  "describe rank = TypedMethod rank (ValueMethod stringConverter [stringConverter, doubleConverter] describeBody)"


definition mountedView :: FilamentView where
  "mountedView =
     \<lparr> context' = Some \<lparr> choreographer = 1, renderer = 2, engine = 3 \<rparr>,
       surfaceCreatedListener = Some 10, surfaceDestroyedListener = Some 11,
       renderCallbackListener = Some 12, swapChain = Some 20, view = Some 30,
       isSurfaceAlive = True, isComponentMounted = True, viewId = 0, latestToken = 1 \<rparr>"

section \<open>Argument conversion\<close>

text \<open>
  What the pack expansion computes, whatever the order of evaluation: it
  succeeds exactly when every slot converts, and then with the converted values
  in the order of the parameters; it looks at the slots \<open>0, ..., n - 1\<close> only;
  when a slot does not convert, the exception is that of some slot that does
  not convert, and of that slot if it is the only one. Which of several it is
  depends on the order: for \<open>describe\<close> called without arguments it is the
  string's from left to right and the number's from right to left. \<open>greet\<close>,
  whose arguments are evaluated from right to left, still receives them in the
  order of its parameters.
\<close>

lemma evalArgs_Inr_iff:
  "evalArgs cs rt args ks = Inr kvs \<longleftrightarrow>
     map fst kvs = ks \<and> (\<forall>kv\<in>set kvs. fromJSI (cs ! fst kv) rt (args (fst kv)) = Inr (snd kv))"
proof (induction ks arbitrary: kvs)
  case Nil
  then show ?case by auto
next
  case (Cons k ks)
  show ?case
  proof (cases "fromJSI (cs ! k) rt (args k)")
    case (Inl e)
    then show ?thesis by (cases kvs) auto
  next
    case (Inr v)
    show ?thesis
    proof (cases "evalArgs cs rt args ks")
      case (Inl e)
      have "\<not> (map fst kvs = k # ks \<and> (\<forall>kv\<in>set kvs. fromJSI (cs ! fst kv) rt (args (fst kv)) = Inr (snd kv)))"
      proof
        assume a: "map fst kvs = k # ks \<and> (\<forall>kv\<in>set kvs. fromJSI (cs ! fst kv) rt (args (fst kv)) = Inr (snd kv))"
        then obtain kv rest where kvs: "kvs = kv # rest" by (cases kvs) auto
        with a have "map fst rest = ks \<and> (\<forall>kv\<in>set rest. fromJSI (cs ! fst kv) rt (args (fst kv)) = Inr (snd kv))"
          by simp
        then have "evalArgs cs rt args ks = Inr rest" by (simp add: Cons.IH)
        with Inl show False by simp
      qed
      with Inr Inl show ?thesis by simp
    next
      case r: (Inr rest)
      then have ih: "map fst rest = ks" "\<forall>kv\<in>set rest. fromJSI (cs ! fst kv) rt (args (fst kv)) = Inr (snd kv)"
        by (simp_all add: Cons.IH)
      have e: "evalArgs cs rt args (k # ks) = Inr ((k, v) # rest)" using Inr r by simp
      show ?thesis
      proof
        assume "evalArgs cs rt args (k # ks) = Inr kvs"
        with e have "kvs = (k, v) # rest" by simp
        with ih Inr show "map fst kvs = k # ks \<and> (\<forall>kv\<in>set kvs. fromJSI (cs ! fst kv) rt (args (fst kv)) = Inr (snd kv))"
          by simp
      next
        assume a: "map fst kvs = k # ks \<and> (\<forall>kv\<in>set kvs. fromJSI (cs ! fst kv) rt (args (fst kv)) = Inr (snd kv))"
        then obtain kv rest' where kvs: "kvs = kv # rest'" by (cases kvs) auto
        with a have hd: "fst kv = k" "fromJSI (cs ! k) rt (args k) = Inr (snd kv)"
          and tl: "map fst rest' = ks \<and> (\<forall>kv\<in>set rest'. fromJSI (cs ! fst kv) rt (args (fst kv)) = Inr (snd kv))"
          by auto
        from tl have "evalArgs cs rt args ks = Inr rest'" by (simp add: Cons.IH)
        with r have "rest' = rest" by simp
        moreover from hd Inr have "kv = (k, v)" by (cases kv) simp
        ultimately show "evalArgs cs rt args (k # ks) = Inr kvs" using e kvs by simp
      qed
    qed
  qed
qed

lemma evalArgs_Inl:
  "evalArgs cs rt args ks = Inl e \<Longrightarrow> \<exists>k\<in>set ks. fromJSI (cs ! k) rt (args k) = Inl e"
  by (induction ks) (auto split: sum.splits)



lemma slots_in_parameter_order:
  assumes "set (map fst kvs) = {0..<n}" "length kvs = n"
  shows "map fst (sort_key fst kvs) = [0..<n]"
proof -
  let ?xs = "map fst (sort_key fst kvs)"
  have s: "sorted ?xs" by (rule sorted_sort_key)
  have "set ?xs = set (map fst kvs)" by simp
  then have st: "set ?xs = {0..<n}" using assms(1) by (rule trans)
  have l: "length ?xs = n" using assms(2) by simp
  have "card (set ?xs) = length ?xs" using st l by simp
  then have d: "distinct ?xs" by (rule card_distinct)
  have e: "set ?xs = set [0..<n]" using st by (simp only: set_upt)
  show ?thesis
    by (rule sorted_distinct_set_unique[OF s d sorted_upt distinct_upt e])
qed

lemma convertArgs_Inr_iff:
  "convertArgs rank cs rt args = Inr vs \<longleftrightarrow>
     length vs = length cs \<and> (\<forall>k<length cs. fromJSI (cs ! k) rt (args k) = Inr (vs ! k))"
proof (cases "evalArgs cs rt args (sort_key rank [0..<length cs])")
  case (Inl e)
  then have c: "convertArgs rank cs rt args = Inl e" by (simp add: convertArgs_def)
  from evalArgs_Inl[OF Inl] obtain k where "k < length cs" "fromJSI (cs ! k) rt (args k) = Inl e"
    by auto
  then have "\<not> (\<forall>k<length cs. fromJSI (cs ! k) rt (args k) = Inr (vs ! k))" by auto
  with c show ?thesis by simp
next
  case (Inr kvs)
  then have m: "map fst kvs = sort_key rank [0..<length cs]"
    and v: "\<forall>kv\<in>set kvs. fromJSI (cs ! fst kv) rt (args (fst kv)) = Inr (snd kv)"
    by (simp_all add: evalArgs_Inr_iff)
  let ?s = "sort_key fst kvs"
  have c: "convertArgs rank cs rt args = Inr (map snd ?s)" using Inr by (simp add: convertArgs_def)
  have len: "length kvs = length cs" using arg_cong[OF m, of length] by simp
  have "set (map fst kvs) = {0..<length cs}" unfolding m by simp
  then have o: "map fst ?s = [0..<length cs]" using len by (rule slots_in_parameter_order)
  have r: "fromJSI (cs ! k) rt (args k) = Inr (map snd ?s ! k)" if "k < length cs" for k
  proof -
    have kl: "k < length ?s" using that len by simp
    then have "?s ! k \<in> set kvs" using nth_mem[OF kl] by simp
    with v have "fromJSI (cs ! fst (?s ! k)) rt (args (fst (?s ! k))) = Inr (snd (?s ! k))" by blast
    moreover have "fst (?s ! k) = k" using arg_cong[OF o, of "\<lambda>xs. xs ! k"] kl that by simp
    ultimately show ?thesis using kl by simp
  qed
  show ?thesis
  proof
    assume "convertArgs rank cs rt args = Inr vs"
    with c have "vs = map snd ?s" by simp
    with r len show "length vs = length cs \<and> (\<forall>k<length cs. fromJSI (cs ! k) rt (args k) = Inr (vs ! k))"
      by simp
  next
    assume a: "length vs = length cs \<and> (\<forall>k<length cs. fromJSI (cs ! k) rt (args k) = Inr (vs ! k))"
    have "vs = map snd ?s"
    proof (rule nth_equalityI)
      show "length vs = length (map snd ?s)" using a len by simp
    next
      fix k assume "k < length vs"
      then have k: "k < length cs" using a by simp
      with a have "fromJSI (cs ! k) rt (args k) = Inr (vs ! k)" by blast
      with r[OF k] show "vs ! k = map snd ?s ! k" by simp
    qed
    with c show "convertArgs rank cs rt args = Inr vs" by simp
  qed
qed

lemma convertArgs_success:
  "length vs = length cs \<Longrightarrow> (\<forall>k<length cs. fromJSI (cs ! k) rt (args k) = Inr (vs ! k))
     \<Longrightarrow> convertArgs rank cs rt args = Inr vs"
  by (simp add: convertArgs_Inr_iff)




lemma evaluation_order_decides_the_exception:
  "callMethod leftToRight (ValueMethod stringConverter [stringConverter, doubleConverter] describeBody)
      0 noArgs ''Bob'' = (Inl (TypeConversionError ''string'' ''other''), ''Bob'')"
  "callMethod rightToLeft (ValueMethod stringConverter [stringConverter, doubleConverter] describeBody)
      0 noArgs ''Bob'' = (Inl (TypeConversionError ''number'' ''other''), ''Bob'')"
  by (simp_all add: convertArgs_def leftToRight_def rightToLeft_def stringConverter_def doubleConverter_def noArgs_def)

lemma values_in_parameter_order:
  "callMethod rightToLeft (ValueMethod stringConverter [stringConverter, stringConverter] greetBody)
      0 (argsOf [JString ''Hi '', JString ''there '']) ''Bob'' = (Inr (JString ''Hi there Bob''), ''Bob'')"
  by (simp add: convertArgs_def rightToLeft_def stringConverter_def argsOf_def greetBody_def)

section \<open>What a registration stores\<close>

lemma registerHybridMethod_Inr:
  "registerHybridMethod nm m ov obj = (Inr u, obj') \<Longrightarrow>
     obj' = obj\<lparr> methods := (methods obj)(nm \<mapsto>
        \<lparr> func = createHybridMethod m, parameterCount = sizeofArgs m \<rparr>) \<rparr>"
  by (auto simp: registerHybridMethod_def split: if_splits)

lemma registered_func:
  "registerHybridMethod nm m ov reg = (Inr u, reg') \<Longrightarrow>
     methods reg' nm = Some \<lparr> func = createHybridMethod m, parameterCount = sizeofArgs m \<rparr>"
  by (drule registerHybridMethod_Inr) simp

lemma registerHybridMethod_ok_iff:
  "fst (registerHybridMethod nm m False obj) = Inr () \<longleftrightarrow>
     methods obj nm = None \<and> getters obj nm = None \<and> setters obj nm = None"
  by (auto simp: registerHybridMethod_def)

lemma registerHybridGetter_ok_iff:
  "fst (registerHybridGetter nm m obj) = Inr () \<longleftrightarrow> getters obj nm = None \<and> methods obj nm = None"
  by (auto simp: registerHybridGetter_def)

lemma registerHybridSetter_ok_iff:
  "fst (registerHybridSetter nm m obj) = Inr () \<longleftrightarrow> setters obj nm = None \<and> methods obj nm = None"
  by (auto simp: registerHybridSetter_def)

lemma snd_registerHybridGetter:
  "snd (registerHybridGetter nm m obj) =
     (if getters obj nm = None \<and> methods obj nm = None
      then obj\<lparr> getters := (getters obj)(nm \<mapsto> createHybridMethod m) \<rparr> else obj)"
  by (simp add: registerHybridGetter_def)

lemma snd_registerHybridSetter:
  "snd (registerHybridSetter nm m obj) =
     (if setters obj nm = None \<and> methods obj nm = None
      then obj\<lparr> setters := (setters obj)(nm \<mapsto> createHybridMethod m) \<rparr> else obj)"
  by (simp add: registerHybridSetter_def)

lemma snd_registerHybridMethod:
  "snd (registerHybridMethod nm m ov obj) =
     (if ov \<or> (methods obj nm = None \<and> getters obj nm = None \<and> setters obj nm = None)
      then obj\<lparr> methods := (methods obj)(nm \<mapsto>
             \<lparr> func = createHybridMethod m, parameterCount = sizeofArgs m \<rparr>) \<rparr> else obj)"
  by (auto simp: registerHybridMethod_def)

section \<open>The invariant of lazy declaration\<close>








section \<open>The invariant of the cache\<close>












section \<open>The claims\<close>

text \<open>
  C1. The name checks of the three registration calls, as the header makes them.
  A method without override is refused exactly when the name is already a
  method, a getter or a setter; a getter exactly when the name is already a
  getter or a method; a setter exactly when the name is already a setter or a
  method. A refusal is a \<^verbatim>\<open>std::runtime_error\<close> and leaves the object as it was; a
  method with override is never refused. For two declarations of one fresh name
  the outcome does not depend on their order: a method conflicts with a getter,
  with a setter and with another method whichever comes first, two getters
  conflict, two setters conflict, and a getter and a setter share the name
  whichever comes first.
\<close>

theorem name_conflict_rules:
  "(fst (registerHybridMethod nm m False obj) = Inr () \<longleftrightarrow>
       methods obj nm = None \<and> getters obj nm = None \<and> setters obj nm = None)
   \<and> (fst (registerHybridGetter nm g obj) = Inr () \<longleftrightarrow> getters obj nm = None \<and> methods obj nm = None)
   \<and> (fst (registerHybridSetter nm s obj) = Inr () \<longleftrightarrow> setters obj nm = None \<and> methods obj nm = None)
   \<and> (fst (registerHybridMethod nm m False obj) = Inr () \<or>
        (\<exists>msg. registerHybridMethod nm m False obj = (Inl (RuntimeError msg), obj)))
   \<and> (fst (registerHybridGetter nm g obj) = Inr () \<or>
        (\<exists>msg. registerHybridGetter nm g obj = (Inl (RuntimeError msg), obj)))
   \<and> (fst (registerHybridSetter nm s obj) = Inr () \<or>
        (\<exists>msg. registerHybridSetter nm s obj = (Inl (RuntimeError msg), obj)))
   \<and> fst (registerHybridMethod nm m True obj) = Inr ()
   \<and> (methods obj nm = None \<and> getters obj nm = None \<and> setters obj nm = None \<longrightarrow>
         fst (registerHybridSetter nm s (snd (registerHybridGetter nm g obj))) = Inr ()
       \<and> fst (registerHybridGetter nm g (snd (registerHybridSetter nm s obj))) = Inr ()
       \<and> fst (registerHybridGetter nm g (snd (registerHybridMethod nm m False obj))) \<noteq> Inr ()
       \<and> fst (registerHybridMethod nm m False (snd (registerHybridGetter nm g obj))) \<noteq> Inr ()
       \<and> fst (registerHybridSetter nm s (snd (registerHybridMethod nm m False obj))) \<noteq> Inr ()
       \<and> fst (registerHybridMethod nm m False (snd (registerHybridSetter nm s obj))) \<noteq> Inr ()
       \<and> fst (registerHybridMethod nm m False (snd (registerHybridMethod nm m' False obj))) \<noteq> Inr ()
       \<and> fst (registerHybridGetter nm g (snd (registerHybridGetter nm g' obj))) \<noteq> Inr ()
       \<and> fst (registerHybridSetter nm s (snd (registerHybridSetter nm s' obj))) \<noteq> Inr ())"
proof -
  have t: "fst (registerHybridMethod nm m False obj) = Inr () \<or>
        (\<exists>msg. registerHybridMethod nm m False obj = (Inl (RuntimeError msg), obj))"
    "fst (registerHybridGetter nm g obj) = Inr () \<or>
        (\<exists>msg. registerHybridGetter nm g obj = (Inl (RuntimeError msg), obj))"
    "fst (registerHybridSetter nm s obj) = Inr () \<or>
        (\<exists>msg. registerHybridSetter nm s obj = (Inl (RuntimeError msg), obj))"
    by (simp_all add: registerHybridMethod_def registerHybridGetter_def registerHybridSetter_def)
  have o: "fst (registerHybridMethod nm m True obj) = Inr ()"
    by (simp add: registerHybridMethod_def)
  have p: "methods obj nm = None \<and> getters obj nm = None \<and> setters obj nm = None \<longrightarrow>
         fst (registerHybridSetter nm s (snd (registerHybridGetter nm g obj))) = Inr ()
       \<and> fst (registerHybridGetter nm g (snd (registerHybridSetter nm s obj))) = Inr ()
       \<and> fst (registerHybridGetter nm g (snd (registerHybridMethod nm m False obj))) \<noteq> Inr ()
       \<and> fst (registerHybridMethod nm m False (snd (registerHybridGetter nm g obj))) \<noteq> Inr ()
       \<and> fst (registerHybridSetter nm s (snd (registerHybridMethod nm m False obj))) \<noteq> Inr ()
       \<and> fst (registerHybridMethod nm m False (snd (registerHybridSetter nm s obj))) \<noteq> Inr ()
       \<and> fst (registerHybridMethod nm m False (snd (registerHybridMethod nm m' False obj))) \<noteq> Inr ()
       \<and> fst (registerHybridGetter nm g (snd (registerHybridGetter nm g' obj))) \<noteq> Inr ()
       \<and> fst (registerHybridSetter nm s (snd (registerHybridSetter nm s' obj))) \<noteq> Inr ()"
    by (simp add: registerHybridMethod_ok_iff registerHybridGetter_ok_iff registerHybridSetter_ok_iff
        snd_registerHybridGetter snd_registerHybridSetter snd_registerHybridMethod)
  show ?thesis
    using registerHybridMethod_ok_iff[of nm m obj] registerHybridGetter_ok_iff[of nm g obj]
      registerHybridSetter_ok_iff[of nm s obj] t o p by blast
qed

text \<open>At the \<open>User\<close>: the property pair in both orders, a method against a getter in both orders.\<close>

theorem name_conflict_rules_witness:
  "fst (registerHybridSetter ''name'' setName (snd (registerHybridGetter ''name'' getName newHybridObject))) = Inr ()
   \<and> fst (registerHybridGetter ''name'' getName (snd (registerHybridSetter ''name'' setName newHybridObject))) = Inr ()
   \<and> fst (registerHybridGetter ''getAge'' getAge (snd (registerHybridMethod ''getAge'' getAge False newHybridObject))) \<noteq> Inr ()
   \<and> fst (registerHybridMethod ''getAge'' getAge False (snd (registerHybridGetter ''getAge'' getAge newHybridObject))) \<noteq> Inr ()"
proof -
  have f: "methods (newHybridObject :: string HybridObject) nm = None \<and>
      getters (newHybridObject :: string HybridObject) nm = None \<and>
      setters (newHybridObject :: string HybridObject) nm = None" for nm
    by (simp add: newHybridObject_def)
  show ?thesis
    using name_conflict_rules[of "''name''" getAge newHybridObject getName setName getAge getName setName]
      name_conflict_rules[of "''getAge''" getAge newHybridObject getAge setName getAge getName setName]
      f[of "''name''"] f[of "''getAge''"]
    by blast
qed

text \<open>
  C1 as it is worded, that a getter and a setter may not share a name, fails: on
  a new object \<open>getName\<close> is registered as the getter \<open>name\<close>, and then \<open>setName\<close>
  is accepted as the setter \<open>name\<close>; both entries are in the object afterwards.
  \<^verbatim>\<open>registerHybridSetter\<close> looks at \<^verbatim>\<open>_setters\<close> and \<^verbatim>\<open>_methods\<close>, never at \<^verbatim>\<open>_getters\<close>.
\<close>

theorem getter_and_setter_share_a_name:
  "fst (registerHybridGetter ''name'' getName (newHybridObject :: string HybridObject)) = Inr ()
   \<and> fst (registerHybridSetter ''name'' setName (snd (registerHybridGetter ''name'' getName newHybridObject))) = Inr ()
   \<and> getters (snd (registerHybridSetter ''name'' setName (snd (registerHybridGetter ''name'' getName newHybridObject)))) ''name''
       = Some (createHybridMethod getName)
   \<and> setters (snd (registerHybridSetter ''name'' setName (snd (registerHybridGetter ''name'' getName newHybridObject)))) ''name''
       = Some (createHybridMethod setName)"
  by (simp add: registerHybridGetter_def registerHybridSetter_def newHybridObject_def)




text \<open>
  C3. The callable of a registered method that does not return \<^verbatim>\<open>jsi::Value\<close>,
  whatever the order in which its arguments are evaluated:
  when slot \<open>i\<close> of the argument array converts, by the converter of the i-th
  declared parameter, to \<open>vs ! i\<close> for every declared parameter, the native
  method is invoked with exactly \<open>vs\<close>, in declaration order, and the callable
  returns the method's result converted by \<open>toJSI\<close> of the return type. (A
  \<^verbatim>\<open>void\<close> method has no result to convert: its callable returns \<open>Undefined\<close>. An
  exception of the method is the outcome of the call.)
\<close>

theorem typed_method_call:
  assumes reg: "registerHybridMethod nm (TypedMethod rank m) ov reg = (Inr (), reg')"
    and len: "length vs = length (Args m)"
    and conv: "\<forall>i<length (Args m). fromJSI (Args m ! i) rt (args i) = Inr (vs ! i)"
  shows "\<exists>hf. methods reg' nm = Some hf \<and>
           func hf rt thisVal args count obj =
             (case m of
                ValueMethod ret cs body \<Rightarrow>
                  (case body vs obj of
                     (Inr result, obj') \<Rightarrow> (Inr (toJSI ret rt result), obj')
                   | (Inl e, obj') \<Rightarrow> (Inl e, obj'))
              | VoidMethod cs body \<Rightarrow>
                  (case body vs obj of
                     (Inr u, obj') \<Rightarrow> (Inr Undefined, obj')
                   | (Inl e, obj') \<Rightarrow> (Inl e, obj')))"
proof -
  have c: "convertArgs rank (Args m) rt args = Inr vs"
    using convertArgs_success[of vs "Args m" rt args rank] len conv by simp
  have "callMethod rank m rt args obj =
             (case m of
                ValueMethod ret cs body \<Rightarrow>
                  (case body vs obj of
                     (Inr result, obj') \<Rightarrow> (Inr (toJSI ret rt result), obj')
                   | (Inl e, obj') \<Rightarrow> (Inl e, obj'))
              | VoidMethod cs body \<Rightarrow>
                  (case body vs obj of
                     (Inr u, obj') \<Rightarrow> (Inr Undefined, obj')
                   | (Inl e, obj') \<Rightarrow> (Inl e, obj')))"
    using c by (cases m) (auto split: prod.splits sum.splits)
  with registered_func[OF reg] show ?thesis by simp
qed

text \<open>\<open>greet\<close> called with two strings on the user Bob.\<close>

theorem typed_method_call_witness:
  "\<exists>hf. methods (snd (registerHybridMethod ''greet'' greet False (newHybridObject :: string HybridObject))) ''greet'' = Some hf \<and>
      func hf 0 Undefined (argsOf [JString ''Hi '', JString ''there '']) 2 ''Bob''
        = (Inr (JString ''Hi there Bob''), ''Bob'')"
proof -
  have r: "registerHybridMethod ''greet'' (TypedMethod rightToLeft (ValueMethod stringConverter [stringConverter, stringConverter]
     greetBody)) False (newHybridObject :: string HybridObject)
     = (Inr (), snd (registerHybridMethod ''greet'' greet False newHybridObject))"
    by (simp add: registerHybridMethod_def newHybridObject_def greet_def)
  have l: "length [NString ''Hi '', NString ''there '']
      = length (Args (ValueMethod stringConverter [stringConverter, stringConverter] greetBody))" by simp
  have c: "\<forall>i<length (Args (ValueMethod stringConverter [stringConverter, stringConverter] greetBody)).
      fromJSI (Args (ValueMethod stringConverter [stringConverter, stringConverter] greetBody) ! i) 0
      (argsOf [JString ''Hi '', JString ''there ''] i) = Inr ([NString ''Hi '', NString ''there ''] ! i)"
    by (simp add: stringConverter_def argsOf_def less_Suc_eq)
  have b: "greetBody [NString ''Hi '', NString ''there ''] ''Bob''
      = (Inr (NString ''Hi there Bob''), ''Bob'')" by (simp add: greetBody_def)
  have t: "toJSI stringConverter 0 (NString ''Hi there Bob'') = JString ''Hi there Bob''"
    by (simp add: stringConverter_def)
  from typed_method_call[OF r l c, of Undefined 2 "''Bob''"] obtain hf where
    m: "methods (snd (registerHybridMethod ''greet'' greet False (newHybridObject :: string HybridObject))) ''greet'' = Some hf"
    and h: "func hf 0 Undefined (argsOf [JString ''Hi '', JString ''there '']) 2 ''Bob'' =
       (case ValueMethod stringConverter [stringConverter, stringConverter] greetBody of
                ValueMethod ret cs body \<Rightarrow>
                  (case body [NString ''Hi '', NString ''there ''] ''Bob'' of
                     (Inr result, obj') \<Rightarrow> (Inr (toJSI ret 0 result), obj')
                   | (Inl e, obj') \<Rightarrow> (Inl e, obj'))
              | VoidMethod cs body \<Rightarrow>
                  (case body [NString ''Hi '', NString ''there ''] ''Bob'' of
                     (Inr u, obj') \<Rightarrow> (Inr Undefined, obj')
                   | (Inl e, obj') \<Rightarrow> (Inl e, obj')))"
    by blast
  have "func hf 0 Undefined (argsOf [JString ''Hi '', JString ''there '']) 2 ''Bob''
      = (Inr (JString ''Hi there Bob''), ''Bob'')"
    unfolding h by (simp add: b t)
  with m show ?thesis by blast
qed

text \<open>
  C4. The callable of a registered \<^verbatim>\<open>void\<close> method returns \<open>Undefined\<close>: whatever the
  runtime, the arguments, the count and the native state, it never returns any
  other value, and whenever the arguments convert and the method returns, the
  call returns \<open>Undefined\<close> together with the state the method left. (The
  only other outcome is that a converter or the method throws.)
\<close>

theorem void_method_returns_undefined:
  assumes reg: "registerHybridMethod nm (TypedMethod rank (VoidMethod cs body)) ov reg = (Inr (), reg')"
  shows "\<exists>hf. methods reg' nm = Some hf \<and>
           (\<forall>rt thisVal args count obj.
              (\<forall>v. fst (func hf rt thisVal args count obj) = Inr v \<longrightarrow> v = Undefined) \<and>
              (\<forall>vs obj'. convertArgs rank cs rt args = Inr vs \<and> body vs obj = (Inr (), obj') \<longrightarrow>
                 func hf rt thisVal args count obj = (Inr Undefined, obj')))"
proof -
  have a: "fst (callMethod rank (VoidMethod cs body) rt args obj) = Inr v \<Longrightarrow> v = Undefined" for rt args obj v
    by (auto split: sum.splits prod.splits)
  have b: "convertArgs rank cs rt args = Inr vs \<Longrightarrow> body vs obj = (Inr (), obj') \<Longrightarrow>
      callMethod rank (VoidMethod cs body) rt args obj = (Inr Undefined, obj')" for rt args obj vs obj'
    by simp
  from registered_func[OF reg] a b show ?thesis by simp
qed

text \<open>\<open>setName\<close> called with the string Bob on the user Alice.\<close>

theorem void_method_returns_undefined_witness:
  "\<exists>hf. methods (snd (registerHybridMethod ''setName'' setName False (newHybridObject :: string HybridObject))) ''setName'' = Some hf \<and>
      func hf 0 Undefined (argsOf [JString ''Bob'']) 1 ''Alice'' = (Inr Undefined, ''Bob'')"
proof -
  have r: "registerHybridMethod ''setName'' (TypedMethod leftToRight (VoidMethod [stringConverter] setNameBody)) False
      (newHybridObject :: string HybridObject)
     = (Inr (), snd (registerHybridMethod ''setName'' setName False newHybridObject))"
    by (simp add: registerHybridMethod_def newHybridObject_def setName_def)
  have c: "convertArgs leftToRight [stringConverter] 0 (argsOf [JString ''Bob'']) = Inr [NString ''Bob'']"
    by (rule convertArgs_success) (simp_all add: stringConverter_def argsOf_def)
  have b: "setNameBody [NString ''Bob''] ''Alice'' = (Inr (), ''Bob'')"
    by (simp add: setNameBody_def)
  from void_method_returns_undefined[OF r] obtain hf where
    m: "methods (snd (registerHybridMethod ''setName'' setName False (newHybridObject :: string HybridObject))) ''setName'' = Some hf"
    and h: "\<forall>rt thisVal args count obj.
              (\<forall>v. fst (func hf rt thisVal args count obj) = Inr v \<longrightarrow> v = Undefined) \<and>
              (\<forall>vs obj'. convertArgs leftToRight [stringConverter] rt args = Inr vs \<and> setNameBody vs obj = (Inr (), obj') \<longrightarrow>
                 func hf rt thisVal args count obj = (Inr Undefined, obj'))"
    by blast
  from h c b have "func hf 0 Undefined (argsOf [JString ''Bob'']) 1 ''Alice'' = (Inr Undefined, ''Bob'')"
    by blast
  with m show ?thesis by blast
qed

text \<open>
  C5. The callable of a registered method that returns \<^verbatim>\<open>jsi::Value\<close> is the
  method itself: runtime, this-value, argument array and count reach it as they
  came, and its outcome is returned as it is.
\<close>

theorem jsi_method_is_passed_through:
  assumes reg: "registerHybridMethod nm (JsiMethod method) ov reg = (Inr (), reg')"
  shows "\<exists>hf. methods reg' nm = Some hf \<and>
           (\<forall>rt thisVal args count obj.
              func hf rt thisVal args count obj = method rt thisVal args count obj)"
  using registered_func[OF reg] by simp

text \<open>\<open>rawCount\<close> sees the count 7 it was called with.\<close>

theorem jsi_method_is_passed_through_witness:
  "\<exists>hf. methods (snd (registerHybridMethod ''rawCount'' rawCount False (newHybridObject :: string HybridObject))) ''rawCount'' = Some hf \<and>
      func hf 0 Undefined noArgs 7 ''Bob'' = (Inr (JNumber 7), ''Bob'')"
proof -
  have r: "registerHybridMethod ''rawCount'' (JsiMethod rawCountBody :: (native, string) native_method) False
      (newHybridObject :: string HybridObject)
     = (Inr (), snd (registerHybridMethod ''rawCount'' rawCount False newHybridObject))"
    by (simp add: registerHybridMethod_def newHybridObject_def rawCount_def)
  have b: "rawCountBody 0 Undefined noArgs 7 ''Bob'' = (Inr (JNumber 7), ''Bob'')"
    by (simp add: rawCountBody_def)
  from jsi_method_is_passed_through[OF r] obtain hf where
    m: "methods (snd (registerHybridMethod ''rawCount'' rawCount False (newHybridObject :: string HybridObject))) ''rawCount'' = Some hf"
    and h: "\<forall>rt thisVal args count obj. func hf rt thisVal args count obj = rawCountBody rt thisVal args count obj"
    by blast
  from h b have "func hf 0 Undefined noArgs 7 ''Bob'' = (Inr (JNumber 7), ''Bob'')" by simp
  with m show ?thesis by blast
qed

text \<open>
  C6. \<^verbatim>\<open>registerHybridMethod\<close> with override never throws; afterwards the name
  maps, in the method namespace, to the callable of the newly supplied method
  with \<open>parameterCount\<close> the number of its declared parameters, so that no
  earlier method descriptor under that name is left there; the getter and the
  setter namespace are as they were before the call.
\<close>

theorem override_replaces_method:
  "registerHybridMethod nm m True obj =
     (Inr (), obj\<lparr> methods := (methods obj)(nm \<mapsto>
        \<lparr> func = createHybridMethod m, parameterCount = sizeofArgs m \<rparr>) \<rparr>)
   \<and> methods (snd (registerHybridMethod nm m True obj)) nm =
        Some \<lparr> func = createHybridMethod m, parameterCount = sizeofArgs m \<rparr>
   \<and> getters (snd (registerHybridMethod nm m True obj)) = getters obj
   \<and> setters (snd (registerHybridMethod nm m True obj)) = setters obj"
  by (simp add: registerHybridMethod_def)

text \<open>A \<open>User\<close> whose method \<open>getAge\<close> is overridden by \<open>greet\<close>, of two parameters.\<close>

theorem override_replaces_method_witness:
  "methods (snd (registerHybridMethod ''getAge'' greet True
       (snd (registerHybridMethod ''getAge'' getAge False newHybridObject)))) ''getAge''
     = Some \<lparr> func = createHybridMethod greet, parameterCount = 2 \<rparr>"
proof -
  have "sizeofArgs greet = 2" by (simp add: greet_def)
  then show ?thesis
    using override_replaces_method[of "''getAge''" greet
        "snd (registerHybridMethod ''getAge'' getAge False newHybridObject)"]
    by simp
qed

text \<open>
  C6 as it is worded, that no descriptor under that name from before the call
  remains reachable, fails: on an object with the getter \<open>name\<close>, registering the
  method \<open>name\<close> with override succeeds, and the getter \<open>name\<close> registered before
  is still in the getter namespace afterwards. The call writes \<^verbatim>\<open>_methods\<close> only.
\<close>

theorem override_leaves_getter_in_place:
  "fst (registerHybridMethod ''name'' getAge True (snd (registerHybridGetter ''name'' getName newHybridObject))) = Inr ()
   \<and> getters (snd (registerHybridGetter ''name'' getName (newHybridObject :: string HybridObject))) ''name''
       = Some (createHybridMethod getName)
   \<and> getters (snd (registerHybridMethod ''name'' getAge True
        (snd (registerHybridGetter ''name'' getName newHybridObject)))) ''name''
       = Some (createHybridMethod getName)"
  by (simp add: registerHybridMethod_def registerHybridGetter_def newHybridObject_def)






text \<open>
  C9. Each registration call either returns, and then the object differs from
  the one before in the targeted map at the given name only, where the new
  entry now is (without override that name was not in the targeted map
  before), the other two maps being untouched; or it throws a
  \<^verbatim>\<open>std::runtime_error\<close>, and then the object is the one before.
\<close>

theorem registration_is_atomic:
  "(case registerHybridMethod nm m ov obj of
      (Inr u, obj') \<Rightarrow>
        obj' = obj\<lparr> methods := (methods obj)(nm \<mapsto>
                  \<lparr> func = createHybridMethod m, parameterCount = sizeofArgs m \<rparr>) \<rparr>
        \<and> getters obj' = getters obj \<and> setters obj' = setters obj
        \<and> (\<forall>k. k \<noteq> nm \<longrightarrow> methods obj' k = methods obj k)
        \<and> (\<not> ov \<longrightarrow> methods obj nm = None)
    | (Inl e, obj') \<Rightarrow> obj' = obj \<and> (\<exists>msg. e = RuntimeError msg))
   \<and> (case registerHybridGetter nm g obj of
      (Inr u, obj') \<Rightarrow>
        obj' = obj\<lparr> getters := (getters obj)(nm \<mapsto> createHybridMethod g) \<rparr>
        \<and> methods obj' = methods obj \<and> setters obj' = setters obj
        \<and> (\<forall>k. k \<noteq> nm \<longrightarrow> getters obj' k = getters obj k)
        \<and> getters obj nm = None
    | (Inl e, obj') \<Rightarrow> obj' = obj \<and> (\<exists>msg. e = RuntimeError msg))
   \<and> (case registerHybridSetter nm s obj of
      (Inr u, obj') \<Rightarrow>
        obj' = obj\<lparr> setters := (setters obj)(nm \<mapsto> createHybridMethod s) \<rparr>
        \<and> methods obj' = methods obj \<and> getters obj' = getters obj
        \<and> (\<forall>k. k \<noteq> nm \<longrightarrow> setters obj' k = setters obj k)
        \<and> setters obj nm = None
    | (Inl e, obj') \<Rightarrow> obj' = obj \<and> (\<exists>msg. e = RuntimeError msg))"
  by (simp add: registerHybridMethod_def registerHybridGetter_def registerHybridSetter_def)

text \<open>A getter \<open>getAge\<close> on a \<open>User\<close> that has the method \<open>getAge\<close>: refused, the object unchanged.\<close>

theorem registration_is_atomic_witness:
  "registerHybridGetter ''getAge'' getName (snd (registerHybridMethod ''getAge'' getAge False newHybridObject))
     = (Inl (RuntimeError (''Cannot add Hybrid Property Getter '' @ quoted ''getAge'' @
                '' - a method with that name already exists!'')),
        snd (registerHybridMethod ''getAge'' getAge False newHybridObject))"
proof -
  have "fst (registerHybridGetter ''getAge'' getName (snd (registerHybridMethod ''getAge'' getAge False newHybridObject)))
     = Inl (RuntimeError (''Cannot add Hybrid Property Getter '' @ quoted ''getAge'' @
                '' - a method with that name already exists!''))"
    by (simp add: registerHybridGetter_def registerHybridMethod_def newHybridObject_def)
  moreover have "snd (registerHybridGetter ''getAge'' getName (snd (registerHybridMethod ''getAge'' getAge False newHybridObject)))
     = snd (registerHybridMethod ''getAge'' getAge False newHybridObject)"
    using registration_is_atomic[where nm = "''getAge''" and m = getAge and ov = False
        and obj = "snd (registerHybridMethod ''getAge'' getAge False newHybridObject)"
        and g = getName and s = setName]
      calculation
    by (auto split: prod.splits sum.splits)
  ultimately show ?thesis by (metis prod.collapse)
qed

text \<open>
  C10. \<^verbatim>\<open>cleanupResources\<close> twice in a row. The second call leaves the component
  exactly as the first call left it, ends as the first did, and releases no swap
  chain. When the component has its context, the first call returns normally,
  releases the swap chain if there is one (once), clears the field and marks the
  surface not alive.
\<close>

theorem cleanupResources_twice:
  "(case cleanupResources this of
      (r1, this1, calls1) \<Rightarrow>
        (case cleanupResources this1 of
           (r2, this2, calls2) \<Rightarrow>
             this2 = this1 \<and> r2 = r1 \<and> filter isRelease calls2 = [] \<and>
             (context' this \<noteq> None \<longrightarrow>
                r1 = Inr () \<and> swapChain this1 = None \<and> \<not> isSurfaceAlive this1 \<and>
                filter isRelease calls1 = optionalCall (swapChain this) SwapChainRelease)))"
  by (cases "context' this"; cases "swapChain this")
     (simp_all add: cleanupResources_def getContext_def optionalCall_def split: option.splits)

text \<open>
  A mounted view with swap chain 20: the first call releases it, the second
  stops the choreographer and removes the listener again but releases nothing.
\<close>

theorem cleanupResources_twice_witness:
  "cleanupResources mountedView =
     (Inr (), mountedView\<lparr> isSurfaceAlive := False, swapChain := None \<rparr>,
      [LoggerDebug ''Cleaning up resources'', ChoreographerStop 1, ListenerRemove 12,
       SwapChainRelease 20, ViewSetChoreographer 30 None])
   \<and> cleanupResources (mountedView\<lparr> isSurfaceAlive := False, swapChain := None \<rparr>) =
     (Inr (), mountedView\<lparr> isSurfaceAlive := False, swapChain := None \<rparr>,
      [LoggerDebug ''Cleaning up resources'', ChoreographerStop 1, ListenerRemove 12,
       ViewSetChoreographer 30 None])"
proof -
  have 1: "cleanupResources mountedView =
     (Inr (), mountedView\<lparr> isSurfaceAlive := False, swapChain := None \<rparr>,
      [LoggerDebug ''Cleaning up resources'', ChoreographerStop 1, ListenerRemove 12,
       SwapChainRelease 20, ViewSetChoreographer 30 None])"
    by (simp add: cleanupResources_def getContext_def optionalCall_def mountedView_def)
  have 2: "snd (snd (cleanupResources (mountedView\<lparr> isSurfaceAlive := False, swapChain := None \<rparr>))) =
      [LoggerDebug ''Cleaning up resources'', ChoreographerStop 1, ListenerRemove 12,
       ViewSetChoreographer 30 None]"
    by (simp add: cleanupResources_def getContext_def optionalCall_def mountedView_def)
  from cleanupResources_twice[of mountedView] 1 2 show ?thesis
    by (auto split: prod.splits)
qed

end
